theory Spec2Isabelle
  imports Complex_Main "HOL-Library.Signed_Division" "HOL-Library.Word"
begin

section \<open>Common conventions\<close>

text \<open>
  The program under study is \<^verbatim>\<open>src/cpp/RadialStitcher.cpp\<close>.  Values of type
  \<^verbatim>\<open>double\<close> and \<^verbatim>\<open>float\<close> are modelled by the real numbers they denote; a
  floating-point operation whose result is not a finite number (a division by zero) is
  modelled as having no value.  C++ \<^verbatim>\<open>int\<close> values are modelled by mathematical
  integers: every \<^verbatim>\<open>int\<close> below is a pixel coordinate, an image dimension, an index
  or a count of matches, and none of the sums below leaves 32 bits.  Integer division and
  remainder are the truncating ones of C++ (\<open>sdiv\<close>, \<open>smod\<close>); \<^verbatim>\<open>rand() % nMatches\<close> has
  non-negative operands, where \<open>mod\<close> is the same.
  Behaviour that C++ leaves undefined is a value of type \<open>fault\<close>.
\<close>

datatype fault =
    BadIndex      \<comment> \<open>a \<^verbatim>\<open>std::vector\<close> or row pointer is read outside its bounds\<close>
  | DivByZero     \<comment> \<open>a division by zero, whose non-finite result is then converted to an integer type\<close>
  | OutOfRange    \<comment> \<open>a \<^verbatim>\<open>double\<close> converted to an integer type that cannot represent it\<close>

text \<open>\<^verbatim>\<open>a / b\<close> on doubles: \<open>None\<close> stands for the NaN or infinity that a zero divisor yields.\<close>

definition fdiv :: "real \<Rightarrow> real \<Rightarrow> real option" where
  "fdiv a b = (if b = 0 then None else Some (a / b))"

text \<open>The value-preserving part of a \<^verbatim>\<open>double\<close> to integer conversion: truncation toward zero.\<close>

definition trunc :: "real \<Rightarrow> int" where
  "trunc v = (if 0 \<le> v then \<lfloor>v\<rfloor> else \<lceil>v\<rceil>)"

record 'a Mat =
  rows :: int
  cols :: int
  data :: "'a list list"   \<comment> \<open>row-major: \<open>data m ! y ! x\<close> is \<^verbatim>\<open>m.ptr(y)[x]\<close>\<close>

section \<open>\<^verbatim>\<open>buildBlendMask\<close>\<close>

text \<open>Lines 281--286: the inner loop over \<open>x\<close> fills one row of the mask.\<close>

definition mask_row :: "int \<Rightarrow> int \<Rightarrow> int \<Rightarrow> real option list" where
  "mask_row nCols maxDist yDist =
     map (\<lambda>x. let distLeft = \<bar>x + 1\<bar>;
                   distRight = \<bar>nCols - x - 1\<bar>;
                   xDist = min distLeft distRight
               in fdiv (real_of_int (min xDist yDist)) (real_of_int maxDist))
         [0..nCols - 1]"

text \<open>Lines 276--287: the outer loop over \<open>y\<close>.\<close>

definition mask_rows :: "int \<Rightarrow> int \<Rightarrow> int \<Rightarrow> real option list list" where
  "mask_rows nRows nCols maxDist =
     map (\<lambda>y. let distTop = \<bar>y + 1\<bar>;
                   distBottom = \<bar>nRows - y - 1\<bar>;
                   yDist = min distTop distBottom
               in mask_row nCols maxDist yDist)
         [0..nRows - 1]"

text \<open>
  Lines 258--291.  The image enters only through its size; the result is the return code
  and the mask.
\<close>

definition buildBlendMask :: "int \<times> int \<Rightarrow> real option Mat \<Rightarrow> int \<times> real option Mat" where
  "buildBlendMask img_size msk =
     (if img_size \<noteq> (rows msk, cols msk) then (- 1, msk)
      else
        let nRows = rows msk;
            nCols = cols msk;
            maxDist = (if nRows > nCols then nCols sdiv 2 else nRows sdiv 2)
        in (0, msk\<lparr>data := mask_rows nRows nCols maxDist\<rparr>))"

text \<open>The mask that the constructor passes in (line 92): all zeros.\<close>

definition zeros :: "int \<Rightarrow> int \<Rightarrow> real option Mat" where
  "zeros r c = \<lparr>rows = r, cols = c, data = replicate (nat r) (replicate (nat c) (Some 0))\<rparr>"

text \<open>The value at pixel \<open>(x, y)\<close> of the mask built for an \<open>nRows \<times> nCols\<close> image.\<close>

definition blendMask_at :: "int \<Rightarrow> int \<Rightarrow> int \<Rightarrow> int \<Rightarrow> real option" where
  "blendMask_at nCols nRows x y =
     data (snd (buildBlendMask (nRows, nCols) (zeros nRows nCols))) ! nat y ! nat x"

section \<open>Fallible steps\<close>

text \<open>Sequencing of steps that may have undefined behaviour: the first fault ends the run.\<close>

definition thenF :: "fault + 'a \<Rightarrow> ('a \<Rightarrow> fault + 'b) \<Rightarrow> fault + 'b" where
  "thenF r f = (case r of Inl e \<Rightarrow> Inl e | Inr v \<Rightarrow> f v)"

text \<open>\<^verbatim>\<open>xs[i]\<close> on a \<^verbatim>\<open>std::vector\<close> or through a row pointer, with a C++ \<^verbatim>\<open>int\<close> index.\<close>

definition at_vec :: "'a list \<Rightarrow> int \<Rightarrow> fault + 'a" where
  "at_vec xs i = (if 0 \<le> i \<and> i < int (length xs) then Inr (xs ! nat i) else Inl BadIndex)"

text \<open>A \<^verbatim>\<open>double\<close> assigned to an \<^verbatim>\<open>int\<close> (32 bits).\<close>

definition d2i :: "real \<Rightarrow> fault + int" where
  "d2i v = (if - (2 ^ 31) \<le> trunc v \<and> trunc v < 2 ^ 31 then Inr (trunc v) else Inl OutOfRange)"

text \<open>A \<^verbatim>\<open>double\<close> assigned to a \<^verbatim>\<open>uchar\<close>.\<close>

definition d2uchar :: "real \<Rightarrow> fault + 8 word" where
  "d2uchar v = (if 0 \<le> trunc v \<and> trunc v \<le> 255 then Inr (word_of_int (trunc v)) else Inl OutOfRange)"

section \<open>\<^verbatim>\<open>estimateHomography\<close>\<close>

record KeyPoint =
  pt_x :: real
  pt_y :: real

record DMatch =
  queryIdx :: int
  trainIdx :: int
  distance :: real

text \<open>
  The 3x3 matrices of the program (\<^verbatim>\<open>cv::Mat_<double>(3,3)\<close>); \<open>m02\<close> and \<open>m12\<close> are
  the entries \<^verbatim>\<open>at<double>(0, 2)\<close> and \<^verbatim>\<open>at<double>(1, 2)\<close>, the translation.
\<close>

record Mat3 =
  m00 :: real  m01 :: real  m02 :: real
  m10 :: real  m11 :: real  m12 :: real
  m20 :: real  m21 :: real  m22 :: real

definition Id3 :: Mat3 where
  "Id3 = \<lparr>m00 = 1, m01 = 0, m02 = 0, m10 = 0, m11 = 1, m12 = 0, m20 = 0, m21 = 0, m22 = 1\<rparr>"

text \<open>
  The C library's generator is not part of the repository and is a parameter: \<open>srand L seed\<close>
  is the generator state after \<^verbatim>\<open>srand(seed)\<close> (the C standard makes the sequence that
  follows a function of the seed alone), and \<open>rand L g\<close> is the non-negative number that
  \<^verbatim>\<open>rand()\<close> returns in state \<open>g\<close>, with the next state.
\<close>

record 'g stdlib =
  srand :: "nat \<Rightarrow> 'g"
  rand :: "'g \<Rightarrow> nat \<times> 'g"

definition tolerance :: real where
  "tolerance = 3.0"

text \<open>
  Lines 403--410 and 420--428: the translation estimate of one match, the position of its
  keypoint in \<^verbatim>\<open>keypoints2\<close> minus the position of its keypoint in \<^verbatim>\<open>keypoints1\<close>.
\<close>

definition shift :: "KeyPoint list \<Rightarrow> KeyPoint list \<Rightarrow> DMatch \<Rightarrow> fault + real \<times> real" where
  "shift keypoints1 keypoints2 m =
     thenF (at_vec keypoints1 (queryIdx m)) (\<lambda>kNew.
     thenF (at_vec keypoints2 (trainIdx m)) (\<lambda>kCur.
       Inr (pt_x kCur - pt_x kNew, pt_y kCur - pt_y kNew)))"

text \<open>
  Lines 415--438: the loop over \<open>j\<close>, here over the matches not yet visited, \<open>j\<close> being the
  index of the first of them.  The state is \<open>(xQual, yQual, concensus)\<close>.
\<close>

fun check_others ::
  "KeyPoint list \<Rightarrow> KeyPoint list \<Rightarrow> int \<Rightarrow> real \<Rightarrow> real \<Rightarrow> int \<Rightarrow> DMatch list
     \<Rightarrow> int \<times> int \<times> int \<Rightarrow> fault + int \<times> int \<times> int" where
  "check_others keypoints1 keypoints2 featureNumber xTrans yTrans j [] q = Inr q"
| "check_others keypoints1 keypoints2 featureNumber xTrans yTrans j (m # ms) (xQual, yQual, concensus) =
     (if j = featureNumber
      then check_others keypoints1 keypoints2 featureNumber xTrans yTrans (j + 1) ms
             (xQual, yQual, concensus)
      else
        (case shift keypoints1 keypoints2 m of
           Inl e \<Rightarrow> Inl e
         | Inr (xEstimate, yEstimate) \<Rightarrow>
             let xQual' = (if \<bar>xTrans - xEstimate\<bar> < tolerance then 1 else xQual);
                 yQual' = (if \<bar>yTrans - yEstimate\<bar> < tolerance then 1 else yQual);
                 concensus' = (if xQual' \<noteq> 0 \<and> yQual' \<noteq> 0 then concensus + 1 else concensus)
             in check_others keypoints1 keypoints2 featureNumber xTrans yTrans (j + 1) ms
                  (xQual', yQual', concensus')))"

text \<open>The variables that live across the trials (lines 376--383).\<close>

record search =
  xTrans :: real
  yTrans :: real
  maxConcensus :: int
  bestX :: int
  bestY :: int

text \<open>
  Lines 402--445: the rest of a trial once \<open>featureNumber\<close> is drawn; the result is the
  search variables after the trial.
\<close>

definition try_feature ::
  "KeyPoint list \<Rightarrow> KeyPoint list \<Rightarrow> DMatch list \<Rightarrow> int \<Rightarrow> search \<Rightarrow> fault + search" where
  "try_feature keypoints1 keypoints2 matches featureNumber s =
     thenF (at_vec matches featureNumber) (\<lambda>ref.
     thenF (shift keypoints1 keypoints2 ref) (\<lambda>t.
     thenF (check_others keypoints1 keypoints2 featureNumber (fst t) (snd t) 0 matches (0, 0, 0))
       (\<lambda>q. let concensus = snd (snd q)
            in if concensus > maxConcensus s
               then thenF (d2i (fst t)) (\<lambda>bX.
                    thenF (d2i (snd t)) (\<lambda>bY.
                      Inr (s\<lparr>xTrans := fst t, yTrans := snd t,
                               maxConcensus := concensus, bestX := bX, bestY := bY\<rparr>)))
               else Inr (s\<lparr>xTrans := fst t, yTrans := snd t\<rparr>))))"

text \<open>
  Lines 393--445: one trial.  The state is the generator state and the search variables.
  \<^verbatim>\<open>rand() % nMatches\<close> with no match would divide by zero.
\<close>

definition trial ::
  "'g stdlib \<Rightarrow> KeyPoint list \<Rightarrow> KeyPoint list \<Rightarrow> DMatch list \<Rightarrow> 'g \<times> search
     \<Rightarrow> fault + 'g \<times> search" where
  "trial L keypoints1 keypoints2 matches gs =
     (let nMatches = int (length matches);
          r = fst (rand L (fst gs));
          g' = snd (rand L (fst gs))
      in if nMatches = 0 then Inl DivByZero
         else
           let featureNumber = int r mod nMatches
           in thenF (try_feature keypoints1 keypoints2 matches featureNumber (snd gs))
                (\<lambda>s'. Inr (g', s')))"

text \<open>Lines 392--447: the loop over the trials; the body does not read the counter.\<close>

fun trials_loop ::
  "'g stdlib \<Rightarrow> KeyPoint list \<Rightarrow> KeyPoint list \<Rightarrow> DMatch list \<Rightarrow> nat \<Rightarrow> 'g \<times> search
     \<Rightarrow> fault + 'g \<times> search" where
  "trials_loop L keypoints1 keypoints2 matches 0 gs = Inr gs"
| "trials_loop L keypoints1 keypoints2 matches (Suc k) gs =
     (case trial L keypoints1 keypoints2 matches gs of
        Inl e \<Rightarrow> Inl e
      | Inr gs' \<Rightarrow> trials_loop L keypoints1 keypoints2 matches k gs')"

definition search0 :: search where
  "search0 = \<lparr>xTrans = 0, yTrans = 0, maxConcensus = 0, bestX = 0, bestY = 0\<rparr>"

text \<open>Lines 465--472: the fallback on a zero best value, and the write into the homography.\<close>

definition finish :: "search \<Rightarrow> Mat3 \<Rightarrow> fault + Mat3" where
  "finish s homography =
     thenF (if bestX s = 0 then d2i (xTrans s) else Inr (bestX s)) (\<lambda>bX.
     thenF (if bestY s = 0 then d2i (yTrans s) else Inr (bestY s)) (\<lambda>bY.
       Inr (homography\<lparr>m02 := real_of_int bX, m12 := real_of_int bY\<rparr>)))"

text \<open>
  Lines 368--478.  \<open>g\<close> is the state of the C library's generator when the function is
  entered; the result is the return code, the homography and the generator state.  The
  two lines printed to \<^verbatim>\<open>std::cout\<close> are left out.
\<close>

definition estimateHomography ::
  "'g stdlib \<Rightarrow> KeyPoint list \<Rightarrow> KeyPoint list \<Rightarrow> DMatch list \<Rightarrow> 'g \<Rightarrow> Mat3
     \<Rightarrow> fault + int \<times> Mat3 \<times> 'g" where
  "estimateHomography L keypoints1 keypoints2 matches g homography =
     (let nMatches = length matches;
          trials = nMatches;
          g0 = srand L 0
      in thenF (trials_loop L keypoints1 keypoints2 matches trials (g0, search0)) (\<lambda>gs.
         thenF (finish (snd gs) homography) (\<lambda>h. Inr (0, h, fst gs))))"

text \<open>
  A generator to run the definitions on: the portable example of the C standard
  (\<^verbatim>\<open>next = next * 1103515245 + 12345; return next / 65536 % 32768\<close>) on 32 bits.
\<close>

definition example_stdlib :: "nat stdlib" where
  "example_stdlib =
     \<lparr>srand = (\<lambda>seed. seed mod 2 ^ 32),
      rand = (\<lambda>g. let n = (g * 1103515245 + 12345) mod 2 ^ 32 in (n div 65536 mod 32768, n))\<rparr>"

section \<open>\<^verbatim>\<open>getFeatures\<close>\<close>

text \<open>
  What the feature detector and the matcher of OpenCV (lines 311--336) hand to the rest of
  \<^verbatim>\<open>getFeatures\<close>; they are not part of the repository.
\<close>

record Detected =
  keypoints1 :: "KeyPoint list"
  keypoints2 :: "KeyPoint list"
  descriptors1_rows :: int
  approxMatches :: "DMatch list"

text \<open>Lines 339--343: the loop that looks for the minimum distance, over the indices left.\<close>

fun minDist_loop :: "DMatch list \<Rightarrow> int list \<Rightarrow> real \<Rightarrow> fault + real" where
  "minDist_loop approx [] minDist = Inr minDist"
| "minDist_loop approx (i # is) minDist =
     (case at_vec approx i of
        Inl e \<Rightarrow> Inl e
      | Inr m \<Rightarrow>
          let dist = distance m
          in minDist_loop approx is (if dist < minDist then dist else minDist))"

text \<open>Lines 346--348: the loop that keeps the good matches.\<close>

fun keep_loop :: "DMatch list \<Rightarrow> int list \<Rightarrow> real \<Rightarrow> DMatch list \<Rightarrow> fault + DMatch list" where
  "keep_loop approx [] minDist kept = Inr kept"
| "keep_loop approx (i # is) minDist kept =
     (case at_vec approx i of
        Inl e \<Rightarrow> Inl e
      | Inr m \<Rightarrow>
          keep_loop approx is minDist (if distance m < 3 * minDist then kept @ [m] else kept))"

text \<open>
  Lines 323--361, after the calls into OpenCV: the three vectors that the function leaves
  in the object, with the return code.
\<close>

definition getFeatures :: "Detected \<Rightarrow> fault + int \<times> KeyPoint list \<times> KeyPoint list \<times> DMatch list" where
  "getFeatures d =
     (let n = descriptors1_rows d;
          approx = approxMatches d
      in thenF (minDist_loop approx [0..n - 1] 100) (\<lambda>minDist.
         thenF (keep_loop approx [0..n - 1] minDist []) (\<lambda>kept.
           Inr (0, keypoints1 d, keypoints2 d, kept))))"

section \<open>\<^verbatim>\<open>blend\<close>\<close>

text \<open>
  One colour channel of the feather region (lines 516--518): the mask-weighted average,
  assigned to a \<^verbatim>\<open>uchar\<close>.
\<close>

definition feather :: "real \<Rightarrow> real \<Rightarrow> 8 word \<Rightarrow> 8 word \<Rightarrow> fault + 8 word" where
  "feather aN aC vNew vCan =
     (case fdiv (aN * real (unat vNew) + aC * real (unat vCan)) (aN + aC) of
        None \<Rightarrow> Inl DivByZero
      | Some v \<Rightarrow> d2uchar v)"

text \<open>
  Lines 513--523: the body of the loop over \<open>x\<close>, on the rows of the canvas, of the new
  image and of the two masks.  An image row holds three bytes for each pixel.
\<close>

definition blend_pixel ::
  "8 word list \<Rightarrow> real list \<Rightarrow> real list \<Rightarrow> int \<Rightarrow> 8 word list \<Rightarrow> fault + 8 word list" where
  "blend_pixel rowNew alphaNew alphaCan x rowCan =
     thenF (at_vec rowCan (3 * x)) (\<lambda>c0.
     thenF (at_vec rowNew (3 * x)) (\<lambda>n0.
       if c0 \<noteq> 0 \<and> n0 \<noteq> 0 then
         thenF (at_vec alphaNew x) (\<lambda>aN.
         thenF (at_vec alphaCan x) (\<lambda>aC.
         thenF (feather aN aC n0 c0) (\<lambda>blue.
         thenF (at_vec rowNew (3 * x + 1)) (\<lambda>n1.
         thenF (at_vec rowCan (3 * x + 1)) (\<lambda>c1.
         thenF (feather aN aC n1 c1) (\<lambda>green.
         thenF (at_vec rowNew (3 * x + 2)) (\<lambda>n2.
         thenF (at_vec rowCan (3 * x + 2)) (\<lambda>c2.
         thenF (feather aN aC n2 c2) (\<lambda>red.
           Inr (rowCan[nat (3 * x) := blue, nat (3 * x + 1) := green, nat (3 * x + 2) := red]))))))))))
       else if \<not> (c0 > 0) then
         thenF (at_vec rowNew (3 * x + 1)) (\<lambda>n1.
         thenF (at_vec rowNew (3 * x + 2)) (\<lambda>n2.
           if 3 * x + 2 < int (length rowCan)
           then Inr (rowCan[nat (3 * x) := n0, nat (3 * x + 1) := n1, nat (3 * x + 2) := n2])
           else Inl BadIndex))
       else Inr rowCan))"

text \<open>Lines 512--524: the loop over \<open>x\<close>, over the columns left.\<close>

fun blend_row ::
  "8 word list \<Rightarrow> real list \<Rightarrow> real list \<Rightarrow> int list \<Rightarrow> 8 word list \<Rightarrow> fault + 8 word list" where
  "blend_row rowNew alphaNew alphaCan [] rowCan = Inr rowCan"
| "blend_row rowNew alphaNew alphaCan (x # xs) rowCan =
     (case blend_pixel rowNew alphaNew alphaCan x rowCan of
        Inl e \<Rightarrow> Inl e
      | Inr rowCan' \<Rightarrow> blend_row rowNew alphaNew alphaCan xs rowCan')"

text \<open>Lines 507--525: the loop over \<open>y\<close>, over the rows left; the state is the canvas data.\<close>

fun blend_rows ::
  "8 word list list \<Rightarrow> real list list \<Rightarrow> real list list \<Rightarrow> int \<Rightarrow> int list
     \<Rightarrow> 8 word list list \<Rightarrow> fault + 8 word list list" where
  "blend_rows new aNew aCan nCols [] can = Inr can"
| "blend_rows new aNew aCan nCols (y # ys) can =
     (case at_vec can y of Inl e \<Rightarrow> Inl e | Inr rowCan \<Rightarrow>
     (case at_vec new y of Inl e \<Rightarrow> Inl e | Inr rowNew \<Rightarrow>
     (case at_vec aCan y of Inl e \<Rightarrow> Inl e | Inr alphaCan \<Rightarrow>
     (case at_vec aNew y of Inl e \<Rightarrow> Inl e | Inr alphaNew \<Rightarrow>
     (case blend_row rowNew alphaNew alphaCan [0..nCols - 1] rowCan of Inl e \<Rightarrow> Inl e | Inr rowCan' \<Rightarrow>
        blend_rows new aNew aCan nCols ys (can[nat y := rowCan']))))))"

text \<open>Lines 484--529; the result is the return code and the canvas.\<close>

definition blend ::
  "8 word Mat \<Rightarrow> 8 word Mat \<Rightarrow> real Mat \<Rightarrow> real Mat \<Rightarrow> fault + int \<times> 8 word Mat" where
  "blend newImage canvas newMask canvasMask =
     (if (rows newImage, cols newImage) \<noteq> (rows canvas, cols canvas) then Inr (- 1, canvas)
      else
        let nRows = rows canvas;
            nCols = cols canvas
        in thenF (blend_rows (data newImage) (data newMask) (data canvasMask) nCols [0..nRows - 1]
                    (data canvas))
             (\<lambda>can. Inr (0, canvas\<lparr>data := can\<rparr>)))"

section \<open>\<^verbatim>\<open>Stitch\<close>: the chain of transforms\<close>

text \<open>
  Lines 566--576: the translation between image \<open>i\<close> and its left neighbour.  \<open>detect\<close>
  stands for the detector and the matcher of OpenCV run on the two images.
\<close>

definition registerPair ::
  "'g stdlib \<Rightarrow> ('a Mat \<Rightarrow> 'a Mat \<Rightarrow> Detected) \<Rightarrow> 'a Mat list \<Rightarrow> int \<Rightarrow> int \<Rightarrow> 'g
     \<Rightarrow> fault + Mat3 \<times> 'g" where
  "registerPair L detect src numImages i g =
     thenF (at_vec src i) (\<lambda>curr.
     thenF (at_vec src ((i - 1) smod numImages)) (\<lambda>left.
     thenF (getFeatures (detect curr left)) (\<lambda>f.
     thenF (estimateHomography L (fst (snd f)) (fst (snd (snd f))) (snd (snd (snd f))) g Id3) (\<lambda>e.
       Inr (fst (snd e), snd (snd e))))))"

text \<open>
  Lines 564--609, as far as the vector \<^verbatim>\<open>transforms\<close> goes: the warps and the blend work on
  image buffers and leave it alone.  The state is the generator state and \<^verbatim>\<open>transforms\<close>.
\<close>

function stitch_loop ::
  "'g stdlib \<Rightarrow> ('a Mat \<Rightarrow> 'a Mat \<Rightarrow> Detected) \<Rightarrow> 'a Mat list \<Rightarrow> int \<Rightarrow> int \<Rightarrow> 'g \<times> Mat3 list
     \<Rightarrow> fault + 'g \<times> Mat3 list" where
  "stitch_loop L detect src numImages i gt =
     (if i < numImages then
        (case registerPair L detect src numImages i (fst gt) of
           Inl e \<Rightarrow> Inl e
         | Inr Hg \<Rightarrow>
             (case at_vec (snd gt) (i - 1) of
                Inl e \<Rightarrow> Inl e
              | Inr prev \<Rightarrow>
                  let H = fst Hg;
                      C0 = Id3;
                      C1 = C0\<lparr>m02 := m02 C0 + m02 prev, m12 := m12 C0 + m12 prev\<rparr>;
                      C = C1\<lparr>m02 := m02 C1 + m02 H, m12 := m12 C1 + m12 H\<rparr>
                  in stitch_loop L detect src numImages (i + 1) (snd Hg, snd gt @ [C])))
      else Inr gt)"
  by pat_completeness auto
termination
  by (relation "measure (\<lambda>(L, detect, src, numImages, i, gt). nat (numImages - i))") auto

text \<open>
  Lines 533--617, as far as \<^verbatim>\<open>transforms\<close> goes, in an object whose \<^verbatim>\<open>transforms\<close> is
  empty, as the constructor leaves it.  \<open>out_rows\<close> is the height of the canvas.
\<close>

definition Stitch ::
  "'g stdlib \<Rightarrow> ('a Mat \<Rightarrow> 'a Mat \<Rightarrow> Detected) \<Rightarrow> 'a Mat list \<Rightarrow> int \<Rightarrow> 'g
     \<Rightarrow> fault + 'g \<times> Mat3 list" where
  "Stitch L detect src numImages g =
     thenF (at_vec src 0) (\<lambda>first.
     thenF (d2i (1.2 * real_of_int (rows first))) (\<lambda>out_rows.
       let xCenter = 0;
           yCenter = real_of_int ((- rows first) sdiv 2 + out_rows sdiv 2);
           Tr = \<lparr>m00 = 1, m01 = 0, m02 = xCenter,
                 m10 = 0, m11 = 1, m12 = yCenter,
                 m20 = 0, m21 = 0, m22 = 1\<rparr>
       in stitch_loop L detect src numImages 1 (g, [Tr])))"

section \<open>The sequence of hypotheses\<close>

text \<open>
  The values that \<open>featureNumber\<close> takes in \<open>k\<close> successive trials that start in generator
  state \<open>g\<close>, the generator state after them, and the trials run on a given list of values.
\<close>

fun featureNumbers :: "'g stdlib \<Rightarrow> int \<Rightarrow> nat \<Rightarrow> 'g \<Rightarrow> int list" where
  "featureNumbers L nMatches 0 g = []"
| "featureNumbers L nMatches (Suc k) g =
     (int (fst (rand L g)) mod nMatches) # featureNumbers L nMatches k (snd (rand L g))"

fun rand_state_after :: "'g stdlib \<Rightarrow> nat \<Rightarrow> 'g \<Rightarrow> 'g" where
  "rand_state_after L 0 g = g"
| "rand_state_after L (Suc k) g = rand_state_after L k (snd (rand L g))"

fun try_features ::
  "KeyPoint list \<Rightarrow> KeyPoint list \<Rightarrow> DMatch list \<Rightarrow> int list \<Rightarrow> search \<Rightarrow> fault + search" where
  "try_features kp1 kp2 ms [] s = Inr s"
| "try_features kp1 kp2 ms (f # fs) s =
     (case try_feature kp1 kp2 ms f s of
        Inl e \<Rightarrow> Inl e
      | Inr s' \<Rightarrow> try_features kp1 kp2 ms fs s')"

text \<open>
  The matches on which the function has defined behaviour: the indices of every match are
  in range and its translation estimate fits an \<^verbatim>\<open>int\<close>.
\<close>

definition usable :: "KeyPoint list \<Rightarrow> KeyPoint list \<Rightarrow> DMatch \<Rightarrow> bool" where
  "usable kp1 kp2 m =
     (case shift kp1 kp2 m of
        Inl e \<Rightarrow> False
      | Inr t \<Rightarrow> \<bar>fst t\<bar> < 2 ^ 31 \<and> \<bar>snd t\<bar> < 2 ^ 31)"

text \<open>The translation estimate of the match that the last trial of a call draws.\<close>

definition last_hypothesis ::
  "'g stdlib \<Rightarrow> KeyPoint list \<Rightarrow> KeyPoint list \<Rightarrow> DMatch list \<Rightarrow> fault + real \<times> real" where
  "last_hypothesis L kp1 kp2 ms =
     thenF (at_vec ms (last (featureNumbers L (int (length ms)) (length ms) (srand L 0))))
       (shift kp1 kp2)"

text \<open>Search variables whose last hypothesis fits an \<^verbatim>\<open>int\<close>.\<close>

definition fits :: "search \<Rightarrow> bool" where
  "fits s = (\<bar>xTrans s\<bar> < 2 ^ 31 \<and> \<bar>yTrans s\<bar> < 2 ^ 31)"

section \<open>The translation between neighbours\<close>

text \<open>The translation that \<open>registerPair\<close> finds, when it finds one.\<close>

definition pairwiseTranslation ::
  "'g stdlib \<Rightarrow> ('a Mat \<Rightarrow> 'a Mat \<Rightarrow> Detected) \<Rightarrow> 'a Mat list \<Rightarrow> int \<Rightarrow> int \<Rightarrow> (real \<times> real) option" where
  "pairwiseTranslation L detect src numImages i =
     (case registerPair L detect src numImages i (srand L 0) of
        Inl e \<Rightarrow> None
      | Inr Hg \<Rightarrow> Some (m02 (fst Hg), m12 (fst Hg)))"

text \<open>
  Entry \<open>i\<close> of \<open>ts\<close> is entry \<open>i - 1\<close> moved by the translation found between image \<open>i\<close>
  and its left neighbour.
\<close>

definition follows ::
  "'g stdlib \<Rightarrow> ('a Mat \<Rightarrow> 'a Mat \<Rightarrow> Detected) \<Rightarrow> 'a Mat list \<Rightarrow> int \<Rightarrow> Mat3 list \<Rightarrow> int \<Rightarrow> bool" where
  "follows L detect src numImages ts i =
     (case pairwiseTranslation L detect src numImages i of
        None \<Rightarrow> False
      | Some t \<Rightarrow>
          m02 (ts ! nat i) = m02 (ts ! nat (i - 1)) + fst t \<and>
          m12 (ts ! nat i) = m12 (ts ! nat (i - 1)) + snd t)"

section \<open>The wording of the specification\<close>

text \<open>
  Section 4.2 of the specification: bottom distance \<open>height - y\<close>, right distance
  \<open>width - x\<close>.
\<close>

definition spec_blendMask_at :: "int \<Rightarrow> int \<Rightarrow> int \<Rightarrow> int \<Rightarrow> real option" where
  "spec_blendMask_at width height x y =
     (let top = y + 1; bottom = height - y; left = x + 1; right = width - x;
          maxDist = min width height sdiv 2
      in fdiv (real_of_int (min (min left right) (min top bottom))) (real_of_int maxDist))"

text \<open>
  Section 4.3 of the specification: the matches other than the hypothesis whose own estimate
  is within the tolerance of the hypothesis on both axes.
\<close>

definition spec_consensus ::
  "KeyPoint list \<Rightarrow> KeyPoint list \<Rightarrow> DMatch list \<Rightarrow> int \<Rightarrow> real \<Rightarrow> real \<Rightarrow> int" where
  "spec_consensus kp1 kp2 ms featureNumber dx_hyp dy_hyp =
     int (length (filter
       (\<lambda>j. j \<noteq> featureNumber \<and>
            (case thenF (at_vec ms j) (shift kp1 kp2) of
               Inl e \<Rightarrow> False
             | Inr t \<Rightarrow> \<bar>dx_hyp - fst t\<bar> < 3.0 \<and> \<bar>dy_hyp - snd t\<bar> < 3.0))
       [0..int (length ms) - 1]))"

text \<open>
  Section 6 of the specification: the matches whose distance is below three times the
  minimum distance over all matches.
\<close>

definition spec_good_matches :: "DMatch list \<Rightarrow> DMatch list" where
  "spec_good_matches approx =
     filter (\<lambda>m. distance m < 3 * Min (set (map distance approx))) approx"

section \<open>Test data\<close>

definition keypoint :: "real \<Rightarrow> real \<Rightarrow> KeyPoint" where
  "keypoint x y = \<lparr>pt_x = x, pt_y = y\<rparr>"

definition dmatch :: "int \<Rightarrow> int \<Rightarrow> real \<Rightarrow> DMatch" where
  "dmatch q t d = \<lparr>queryIdx = q, trainIdx = t, distance = d\<rparr>"

text \<open>Four matches whose translation estimates are the corners of a square of side 100.\<close>

definition corners1 :: "KeyPoint list" where
  "corners1 = [keypoint 0 0, keypoint 0 0, keypoint 0 0, keypoint 0 0]"

definition corners2 :: "KeyPoint list" where
  "corners2 = [keypoint 0 0, keypoint 0 100, keypoint 100 0, keypoint 100 100]"

definition corner_matches :: "DMatch list" where
  "corner_matches = [dmatch 0 0 1, dmatch 1 1 1, dmatch 2 2 1, dmatch 3 3 1]"

text \<open>One match, displaced by half a pixel on both axes.\<close>

definition half_keypoints1 :: "KeyPoint list" where
  "half_keypoints1 = [keypoint 0 0]"

definition half_keypoints2 :: "KeyPoint list" where
  "half_keypoints2 = [keypoint (1 / 2) (1 / 2)]"

definition half_matches :: "DMatch list" where
  "half_matches = [dmatch 0 0 1]"

text \<open>A colour image and a mask given by their rows.\<close>

definition image :: "8 word list list \<Rightarrow> 8 word Mat" where
  "image d = \<lparr>rows = int (length d), cols = int (length (hd d)) div 3, data = d\<rparr>"

definition alpha :: "real list list \<Rightarrow> real Mat" where
  "alpha d = \<lparr>rows = int (length d), cols = int (length (hd d)), data = d\<rparr>"

text \<open>
  A chain of images of one colour each, and a stand-in for the detector and the matcher that
  reports a single match, displaced horizontally by the colour value of the current image.
\<close>

definition solid :: "int \<Rightarrow> int \<Rightarrow> 8 word \<Rightarrow> 8 word Mat" where
  "solid r c v = \<lparr>rows = r, cols = c, data = replicate (nat r) (replicate (nat (3 * c)) v)\<rparr>"

definition marker_detect :: "8 word Mat \<Rightarrow> 8 word Mat \<Rightarrow> Detected" where
  "marker_detect img1 img2 =
     \<lparr>keypoints1 = [keypoint 0 0],
      keypoints2 = [keypoint (real (unat (hd (hd (data img1))))) 0],
      descriptors1_rows = 1,
      approxMatches = [dmatch 0 0 1]\<rparr>"

definition chain4 :: "8 word Mat list" where
  "chain4 = [solid 5 1 1, solid 5 1 10, solid 5 1 8, solid 5 1 12]"

definition chain4_transforms :: "Mat3 list" where
  "chain4_transforms =
     [Id3\<lparr>m12 := 1\<rparr>, Id3\<lparr>m02 := 10, m12 := 1\<rparr>, Id3\<lparr>m02 := 18, m12 := 1\<rparr>,
      Id3\<lparr>m02 := 30, m12 := 1\<rparr>]"

text \<open>Two candidate matches, both at a distance above 100.\<close>

definition far_detected :: Detected where
  "far_detected =
     \<lparr>keypoints1 = [keypoint 0 0, keypoint 5 5],
      keypoints2 = [keypoint 10 0, keypoint 15 5],
      descriptors1_rows = 2,
      approxMatches = [dmatch 0 0 150, dmatch 1 1 400]\<rparr>"

section \<open>Properties of \<^verbatim>\<open>buildBlendMask\<close>\<close>

lemma sdiv_nonneg: "0 \<le> (a::int) \<Longrightarrow> 0 \<le> b \<Longrightarrow> a sdiv b = a div b"
  by (simp add: signed_divide_int_def sgn_if)

lemma mask_row_nth:
  assumes "0 \<le> x" "x < nCols"
  shows "mask_row nCols maxDist yDist ! nat x =
         fdiv (real_of_int (min (min \<bar>x + 1\<bar> \<bar>nCols - x - 1\<bar>) yDist)) (real_of_int maxDist)"
  using assms by (simp add: mask_row_def Let_def)

lemma mask_rows_nth:
  assumes "0 \<le> y" "y < nRows"
  shows "mask_rows nRows nCols maxDist ! nat y =
         mask_row nCols maxDist (min \<bar>y + 1\<bar> \<bar>nRows - y - 1\<bar>)"
  using assms by (simp add: mask_rows_def Let_def)

lemma mask_value_at:
  assumes "rows m = H" and "cols m = W" and "2 \<le> W" and "2 \<le> H"
    and "0 \<le> x" and "x < W" and "0 \<le> y" and "y < H"
  shows "fst (buildBlendMask (H, W) m) = 0 \<and>
         data (snd (buildBlendMask (H, W) m)) ! nat y ! nat x =
           Some (real_of_int (min (min (x + 1) (W - x - 1)) (min (y + 1) (H - y - 1)))
                 / real_of_int (min W H div 2))"
proof -
  let ?maxDist = "if H > W then W sdiv 2 else H sdiv 2"
  have maxDist: "?maxDist = min W H div 2"
    using assms(3,4) by (simp add: sdiv_nonneg min_def)
  have pos: "min W H div 2 \<noteq> 0"
    using assms(3,4) by (auto simp: min_def)
  have built: "buildBlendMask (H, W) m = (0, m\<lparr>data := mask_rows H W ?maxDist\<rparr>)"
    using assms(1,2) by (simp add: buildBlendMask_def Let_def)
  have "mask_rows H W ?maxDist ! nat y ! nat x =
        fdiv (real_of_int (min (min \<bar>x + 1\<bar> \<bar>W - x - 1\<bar>) (min \<bar>y + 1\<bar> \<bar>H - y - 1\<bar>)))
             (real_of_int ?maxDist)"
    using assms(5-8) by (simp only: mask_rows_nth mask_row_nth)
  also have "\<dots> = Some (real_of_int (min (min (x + 1) (W - x - 1)) (min (y + 1) (H - y - 1)))
                 / real_of_int (min W H div 2))"
  proof -
    have abs: "\<bar>x + 1\<bar> = x + 1" "\<bar>W - x - 1\<bar> = W - x - 1" "\<bar>y + 1\<bar> = y + 1" "\<bar>H - y - 1\<bar> = H - y - 1"
      using assms(5-8) by simp_all
    show ?thesis
      unfolding abs maxDist using pos by (simp add: fdiv_def)
  qed
  finally show ?thesis
    using built by simp
qed

text \<open>
  Claim C5, as the code has it.  For a mask of width \<open>W \<ge> 2\<close> and height \<open>H \<ge> 2\<close> of the
  size of its image, \<^verbatim>\<open>buildBlendMask\<close> returns 0 and the value written at pixel \<open>(x, y)\<close> is
  \<open>min (min (x + 1) (W - x - 1)) (min (y + 1) (H - y - 1))\<close> divided by \<open>min W H\<close> halved with
  truncation: the distance to the top is \<open>y + 1\<close> and to the left \<open>x + 1\<close>, but the distance
  to the bottom is \<open>H - y - 1\<close> and to the right \<open>W - x - 1\<close>.
\<close>

theorem buildBlendMask_value:
  assumes "rows m = H" and "cols m = W" and "2 \<le> W" and "2 \<le> H"
    and "0 \<le> x" and "x < W" and "0 \<le> y" and "y < H"
  shows "fst (buildBlendMask (H, W) m) = 0 \<and>
         data (snd (buildBlendMask (H, W) m)) ! nat y ! nat x =
           Some (real_of_int (min (min (x + 1) (W - x - 1)) (min (y + 1) (H - y - 1)))
                 / real_of_int (min W H div 2))"
  using assms by (rule mask_value_at)

theorem buildBlendMask_value_witness:
  "fst (buildBlendMask (4, 4) (zeros 4 4)) = 0 \<and>
   data (snd (buildBlendMask (4, 4) (zeros 4 4))) ! nat 1 ! nat 1 = Some 1 \<and>
   data (snd (buildBlendMask (4, 4) (zeros 4 4))) ! nat 1 ! nat 3 = Some 0"
  using buildBlendMask_value [of "zeros 4 4" 4 4 1 1] buildBlendMask_value [of "zeros 4 4" 4 4 3 1]
  by (simp add: zeros_def)

text \<open>
  Claim C5 as the specification words it fails: in a 4 by 4 mask the code writes 0 at
  \<open>(x, y) = (3, 1)\<close>, where the formula with right distance \<open>width - x\<close> gives one half.
\<close>

theorem buildBlendMask_spec_counterexample:
  "blendMask_at 4 4 3 1 = Some 0 \<and> spec_blendMask_at 4 4 3 1 = Some (1 / 2) \<and>
   blendMask_at 4 4 3 1 \<noteq> spec_blendMask_at 4 4 3 1"
  by (simp add: blendMask_at_def buildBlendMask_def zeros_def mask_rows_def mask_row_def
      spec_blendMask_at_def fdiv_def upto.simps signed_divide_int_def)

text \<open>On the right and bottom borders the mask is 0.\<close>

lemma buildBlendMask_right_bottom_border:
  assumes "rows m = H" and "cols m = W" and "2 \<le> W" and "2 \<le> H"
    and "0 \<le> x" and "x < W" and "0 \<le> y" and "y < H" and "x = W - 1 \<or> y = H - 1"
  shows "data (snd (buildBlendMask (H, W) m)) ! nat y ! nat x = Some 0"
proof -
  have "min (min (x + 1) (W - x - 1)) (min (y + 1) (H - y - 1)) = 0"
    using assms(5-9) by (auto simp: min_def)
  then show ?thesis
    using mask_value_at [OF assms(1-8)] by simp
qed

text \<open>
  Claim C6 at a 4 by 4 mask: the code writes one half at the left border pixel \<open>(0, 1)\<close> and
  at the top border pixel \<open>(1, 0)\<close>, and 0 at the right border pixel \<open>(3, 1)\<close> and at the
  bottom border pixel \<open>(1, 3)\<close>.
\<close>

theorem buildBlendMask_left_top_border:
  "blendMask_at 4 4 0 1 = Some (1 / 2) \<and> blendMask_at 4 4 1 0 = Some (1 / 2) \<and>
   blendMask_at 4 4 3 1 = Some 0 \<and> blendMask_at 4 4 1 3 = Some 0"
  by (simp add: blendMask_at_def buildBlendMask_def zeros_def mask_rows_def mask_row_def
      fdiv_def upto.simps signed_divide_int_def)

section \<open>Properties of \<^verbatim>\<open>estimateHomography\<close>\<close>

lemma thenF_Inr [simp]: "thenF (Inr v) f = f v"
  by (simp add: thenF_def)

lemma thenF_Inl [simp]: "thenF (Inl e) f = Inl e"
  by (simp add: thenF_def)

lemma thenF_eq_Inr: "thenF r f = Inr y \<longleftrightarrow> (\<exists>v. r = Inr v \<and> f v = Inr y)"
  by (cases r) simp_all

lemma d2i_fits: "\<bar>v\<bar> < 2 ^ 31 \<Longrightarrow> d2i v = Inr (trunc v)"
proof -
  assume a: "\<bar>v\<bar> < 2 ^ 31"
  have "- (2 ^ 31) \<le> trunc v \<and> trunc v < 2 ^ 31"
  proof (cases "0 \<le> v")
    case True
    then have "0 \<le> \<lfloor>v\<rfloor>" by simp
    moreover have "\<lfloor>v\<rfloor> < 2 ^ 31" using a True by (simp add: floor_less_iff)
    ultimately show ?thesis using True by (simp add: trunc_def)
  next
    case False
    then have "\<lceil>v\<rceil> \<le> 0" by (simp add: ceiling_le_iff)
    moreover have "- (2 ^ 31) < \<lceil>v\<rceil>" using a False by (simp add: less_ceiling_iff)
    ultimately show ?thesis using False by (simp add: trunc_def)
  qed
  then show ?thesis by (simp add: d2i_def)
qed

subsection \<open>The trials follow the drawn sequence\<close>

lemma trials_loop_featureNumbers:
  "ms \<noteq> [] \<Longrightarrow>
   trials_loop L kp1 kp2 ms k (g, s) =
     thenF (try_features kp1 kp2 ms (featureNumbers L (int (length ms)) k g) s)
       (\<lambda>s'. Inr (rand_state_after L k g, s'))"
proof (induction k arbitrary: g s)
  case 0
  then show ?case by simp
next
  case (Suc k)
  show ?case
  proof (cases "try_feature kp1 kp2 ms (int (fst (rand L g)) mod int (length ms)) s")
    case (Inl e)
    then show ?thesis using Suc.prems by (simp add: trial_def Let_def)
  next
    case (Inr s')
    then show ?thesis using Suc.prems Suc.IH [of "snd (rand L g)" s']
      by (simp add: trial_def Let_def)
  qed
qed

lemma trials_loop_all:
  "trials_loop L kp1 kp2 ms (length ms) (g, s) =
     thenF (try_features kp1 kp2 ms (featureNumbers L (int (length ms)) (length ms) g) s)
       (\<lambda>s'. Inr (rand_state_after L (length ms) g, s'))"
  by (cases "ms = []") (simp_all add: trials_loop_featureNumbers)

lemma estimateHomography_unfold:
  "estimateHomography L kp1 kp2 ms g H =
     thenF (try_features kp1 kp2 ms (featureNumbers L (int (length ms)) (length ms) (srand L 0)) search0)
       (\<lambda>s. thenF (finish s H) (\<lambda>h. Inr (0, h, rand_state_after L (length ms) (srand L 0))))"
proof (cases "try_features kp1 kp2 ms (featureNumbers L (int (length ms)) (length ms) (srand L 0)) search0")
  case (Inl e)
  then show ?thesis by (simp add: estimateHomography_def Let_def trials_loop_all)
next
  case (Inr s)
  then show ?thesis by (simp add: estimateHomography_def Let_def trials_loop_all)
qed

subsection \<open>The last hypothesis stays in \<open>xTrans\<close> and \<open>yTrans\<close>\<close>

lemma try_feature_hypothesis:
  assumes "try_feature kp1 kp2 ms f s = Inr s'"
  shows "thenF (at_vec ms f) (shift kp1 kp2) = Inr (xTrans s', yTrans s')"
proof (cases "at_vec ms f")
  case Inl
  with assms show ?thesis by (simp add: try_feature_def)
next
  case ref: (Inr ref)
  show ?thesis
  proof (cases "shift kp1 kp2 ref")
    case Inl
    with assms ref show ?thesis by (simp add: try_feature_def)
  next
    case t: (Inr t)
    show ?thesis
    proof (cases "check_others kp1 kp2 f (fst t) (snd t) 0 ms (0, 0, 0)")
      case Inl
      with assms ref t show ?thesis by (simp add: try_feature_def)
    next
      case q: (Inr q)
      show ?thesis
      proof (cases "snd (snd q) > maxConcensus s")
        case False
        with assms ref t q have "s' = s\<lparr>xTrans := fst t, yTrans := snd t\<rparr>"
          by (simp add: try_feature_def Let_def)
        with ref t show ?thesis by simp
      next
        case True
        show ?thesis
        proof (cases "d2i (fst t)")
          case Inl
          with assms ref t q True show ?thesis by (simp add: try_feature_def Let_def)
        next
          case bX: (Inr bX)
          show ?thesis
          proof (cases "d2i (snd t)")
            case Inl
            with assms ref t q True bX show ?thesis by (simp add: try_feature_def Let_def)
          next
            case bY: (Inr bY)
            with assms ref t q True bX
            have "s' = s\<lparr>xTrans := fst t, yTrans := snd t,
                           maxConcensus := snd (snd q), bestX := bX, bestY := bY\<rparr>"
              by (simp add: try_feature_def Let_def)
            with ref t show ?thesis by simp
          qed
        qed
      qed
    qed
  qed
qed

lemma try_features_last:
  "fs \<noteq> [] \<Longrightarrow> try_features kp1 kp2 ms fs s = Inr s' \<Longrightarrow>
   thenF (at_vec ms (last fs)) (shift kp1 kp2) = Inr (xTrans s', yTrans s')"
proof (induction fs arbitrary: s)
  case Nil
  then show ?case by simp
next
  case (Cons f fs)
  from Cons.prems(2) obtain s1 where s1: "try_feature kp1 kp2 ms f s = Inr s1"
    and rest: "try_features kp1 kp2 ms fs s1 = Inr s'"
    by (auto split: sum.splits)
  show ?case
  proof (cases "fs = []")
    case True
    with s1 rest show ?thesis by (simp add: try_feature_hypothesis)
  next
    case False
    with Cons.IH [OF False rest] show ?thesis by simp
  qed
qed

subsection \<open>Usable matches give a result\<close>

lemma usable_shift:
  "usable kp1 kp2 m \<Longrightarrow> \<exists>t. shift kp1 kp2 m = Inr t \<and> \<bar>fst t\<bar> < 2 ^ 31 \<and> \<bar>snd t\<bar> < 2 ^ 31"
  by (auto simp: usable_def split: sum.splits)

lemma check_others_defined:
  "list_all (usable kp1 kp2) ms \<Longrightarrow> \<exists>q'. check_others kp1 kp2 f xT yT j ms q = Inr q'"
proof (induction ms arbitrary: j q)
  case Nil
  show ?case by (rule exI [of _ q]) simp
next
  case (Cons m ms)
  obtain xQ yQ c where q: "q = (xQ, yQ, c)" by (rule prod_cases3)
  from Cons.prems have m: "usable kp1 kp2 m" and ms: "list_all (usable kp1 kp2) ms" by simp_all
  from usable_shift [OF m] obtain t where t: "shift kp1 kp2 m = Inr t" by blast
  show ?case
    using Cons.IH [OF ms] t unfolding q
    by (cases t) (simp add: Let_def)
qed

lemma try_feature_defined:
  assumes "list_all (usable kp1 kp2) ms" and "0 \<le> f" and "f < int (length ms)"
  shows "\<exists>s'. try_feature kp1 kp2 ms f s = Inr s' \<and> fits s'"
proof -
  have at: "at_vec ms f = Inr (ms ! nat f)"
    using assms(2,3) by (simp add: at_vec_def)
  have "ms ! nat f \<in> set ms"
    using assms(2,3) by simp
  then have "usable kp1 kp2 (ms ! nat f)"
    using assms(1) by (simp add: list_all_iff)
  from usable_shift [OF this] obtain t where t: "shift kp1 kp2 (ms ! nat f) = Inr t"
    and fit: "\<bar>fst t\<bar> < 2 ^ 31" "\<bar>snd t\<bar> < 2 ^ 31" by blast
  from check_others_defined [OF assms(1)] obtain q where
    q: "check_others kp1 kp2 f (fst t) (snd t) 0 ms (0, 0, 0) = Inr q" by blast
  show ?thesis
    using at t q fit by (simp add: try_feature_def Let_def d2i_fits fits_def)
qed

lemma try_features_defined:
  assumes "list_all (usable kp1 kp2) ms" and "list_all (\<lambda>f. 0 \<le> f \<and> f < int (length ms)) fs"
    and "fits s"
  shows "\<exists>s'. try_features kp1 kp2 ms fs s = Inr s' \<and> fits s'"
  using assms(2,3)
proof (induction fs arbitrary: s)
  case Nil
  then show ?case by simp
next
  case (Cons f fs)
  from Cons.prems(1) have f: "0 \<le> f" "f < int (length ms)"
    and fs: "list_all (\<lambda>f. 0 \<le> f \<and> f < int (length ms)) fs" by simp_all
  from try_feature_defined [OF assms(1) f] obtain s1 where
    s1: "try_feature kp1 kp2 ms f s = Inr s1" "fits s1" by blast
  from Cons.IH [OF fs s1(2)] s1(1) show ?case by simp
qed

lemma featureNumbers_range:
  "0 < n \<Longrightarrow> list_all (\<lambda>f. 0 \<le> f \<and> f < n) (featureNumbers L n k g)"
  by (induction k arbitrary: g) simp_all

lemma featureNumbers_length: "length (featureNumbers L n k g) = k"
  by (induction k arbitrary: g) simp_all

lemma finish_fits:
  "fits s \<Longrightarrow> finish s H =
     Inr (H\<lparr>m02 := real_of_int (if bestX s = 0 then trunc (xTrans s) else bestX s),
            m12 := real_of_int (if bestY s = 0 then trunc (yTrans s) else bestY s)\<rparr>)"
  by (simp add: finish_def fits_def d2i_fits)

lemma search_defined:
  assumes "list_all (usable kp1 kp2) ms"
  shows "\<exists>s. try_features kp1 kp2 ms (featureNumbers L (int (length ms)) (length ms) g) search0 = Inr s
              \<and> fits s"
proof (cases "ms = []")
  case True
  then show ?thesis by (simp add: fits_def search0_def)
next
  case False
  then have pos: "0 < int (length ms)" by simp
  have fit0: "fits search0" by (simp add: fits_def search0_def)
  show ?thesis
    by (rule try_features_defined [OF assms featureNumbers_range [OF pos] fit0])
qed


lemma trials_result:
  assumes s: "try_features kp1 kp2 ms (featureNumbers L (int (length ms)) (length ms) (srand L 0)) search0 = Inr s"
  shows "trials_loop L kp1 kp2 ms (length ms) (srand L 0, search0)
              = Inr (rand_state_after L (length ms) (srand L 0), s)"
  by (simp only: trials_loop_all s thenF_Inr)

lemma estimate_result:
  assumes s: "try_features kp1 kp2 ms (featureNumbers L (int (length ms)) (length ms) (srand L 0)) search0 = Inr s"
   and fit: "fits s"
  shows "estimateHomography L kp1 kp2 ms g H =
      Inr (0, H\<lparr>m02 := real_of_int (if bestX s = 0 then trunc (xTrans s) else bestX s),
                 m12 := real_of_int (if bestY s = 0 then trunc (yTrans s) else bestY s)\<rparr>,
           rand_state_after L (length ms) (srand L 0))"
  by (simp only: estimateHomography_unfold s thenF_Inr finish_fits [OF fit])


lemma last_trial_kept:
  assumes s: "try_features kp1 kp2 ms (featureNumbers L (int (length ms)) (length ms) (srand L 0)) search0 = Inr s"
  shows "if ms = [] then xTrans s = 0 \<and> yTrans s = 0
       else last_hypothesis L kp1 kp2 ms = Inr (xTrans s, yTrans s)"
proof (cases "ms = []")
  case True
  have "try_features kp1 kp2 [] (featureNumbers L 0 0 (srand L 0)) search0 = Inr s"
    using s unfolding True by simp
  then have "s = search0"
    by (simp only: featureNumbers.simps try_features.simps sum.inject)
  then have "xTrans s = 0 \<and> yTrans s = 0"
    by (simp add: search0_def)
  with True show ?thesis by simp
next
  case False
  let ?fs = "featureNumbers L (int (length ms)) (length ms) (srand L 0)"
  have "?fs \<noteq> []"
  proof
    assume "?fs = []"
    then have "length ?fs = 0" by (simp only: list.size)
    then have "length ms = 0" by (simp only: featureNumbers_length)
    with False show False by simp
  qed
  from try_features_last [OF this s]
  have "last_hypothesis L kp1 kp2 ms = Inr (xTrans s, yTrans s)"
    by (simp only: last_hypothesis_def)
  with False show ?thesis by (simp only: if_False)
qed

lemma fallback_general:
  assumes "list_all (usable kp1 kp2) ms"
  shows "\<exists>s g'. trials_loop L kp1 kp2 ms (length ms) (srand L 0, search0) = Inr (g', s) \<and>
           estimateHomography L kp1 kp2 ms g H =
             Inr (0, H\<lparr>m02 := real_of_int (if bestX s = 0 then trunc (xTrans s) else bestX s),
                        m12 := real_of_int (if bestY s = 0 then trunc (yTrans s) else bestY s)\<rparr>, g') \<and>
           (if ms = [] then xTrans s = 0 \<and> yTrans s = 0
            else last_hypothesis L kp1 kp2 ms = Inr (xTrans s, yTrans s))"
proof -
  let ?fs = "featureNumbers L (int (length ms)) (length ms) (srand L 0)"
  have "\<exists>s. try_features kp1 kp2 ms ?fs search0 = Inr s \<and> fits s"
    by (rule search_defined [OF assms])
  then obtain s where
    s: "try_features kp1 kp2 ms ?fs search0 = Inr s" and fit: "fits s" by (elim exE conjE)
  have 1: "trials_loop L kp1 kp2 ms (length ms) (srand L 0, search0)
              = Inr (rand_state_after L (length ms) (srand L 0), s)"
    by (rule trials_result [OF s])
  have 2: "estimateHomography L kp1 kp2 ms g H =
      Inr (0, H\<lparr>m02 := real_of_int (if bestX s = 0 then trunc (xTrans s) else bestX s),
                 m12 := real_of_int (if bestY s = 0 then trunc (yTrans s) else bestY s)\<rparr>,
           rand_state_after L (length ms) (srand L 0))"
    by (rule estimate_result [OF s fit])
  have 3: "if ms = [] then xTrans s = 0 \<and> yTrans s = 0
       else last_hypothesis L kp1 kp2 ms = Inr (xTrans s, yTrans s)"
    by (rule last_trial_kept [OF s])
  from 1 2 3 show ?thesis
    by (intro exI conjI)
qed


subsection \<open>The claims on \<^verbatim>\<open>estimateHomography\<close>\<close>

text \<open>
  Claim C7, as the code has it.  On usable matches the function returns 0.  \<open>bestX\<close> and
  \<open>bestY\<close> are C++ \<^verbatim>\<open>int\<close> variables: when \<open>bestX\<close> is 0 after the trials, the x component
  written to the homography is the x component of the last trial's hypothesis truncated
  toward zero to an integer (0 when there was no trial), otherwise it is \<open>bestX\<close>; the same
  holds for y.  After the trials \<open>xTrans\<close> and \<open>yTrans\<close> hold the hypothesis of the last
  trial.
\<close>

theorem estimateHomography_fallback:
  assumes "list_all (usable kp1 kp2) ms"
  shows "\<exists>s g'. trials_loop L kp1 kp2 ms (length ms) (srand L 0, search0) = Inr (g', s) \<and>
           estimateHomography L kp1 kp2 ms g H =
             Inr (0, H\<lparr>m02 := real_of_int (if bestX s = 0 then trunc (xTrans s) else bestX s),
                        m12 := real_of_int (if bestY s = 0 then trunc (yTrans s) else bestY s)\<rparr>, g') \<and>
           (if ms = [] then xTrans s = 0 \<and> yTrans s = 0
            else last_hypothesis L kp1 kp2 ms = Inr (xTrans s, yTrans s))"
  using assms by (rule fallback_general)

lemma half_usable: "list_all (usable half_keypoints1 half_keypoints2) half_matches"
  by (simp add: usable_def shift_def at_vec_def half_keypoints1_def half_keypoints2_def
      half_matches_def keypoint_def dmatch_def)

theorem estimateHomography_fallback_witness:
  "list_all (usable half_keypoints1 half_keypoints2) half_matches \<and>
   (\<exists>s g'. trials_loop example_stdlib half_keypoints1 half_keypoints2 half_matches
              (length half_matches) (srand example_stdlib 0, search0) = Inr (g', s) \<and>
           estimateHomography example_stdlib half_keypoints1 half_keypoints2 half_matches 0 Id3 =
             Inr (0, Id3\<lparr>m02 := real_of_int (if bestX s = 0 then trunc (xTrans s) else bestX s),
                          m12 := real_of_int (if bestY s = 0 then trunc (yTrans s) else bestY s)\<rparr>, g') \<and>
           (if half_matches = [] then xTrans s = 0 \<and> yTrans s = 0
            else last_hypothesis example_stdlib half_keypoints1 half_keypoints2 half_matches
                 = Inr (xTrans s, yTrans s)))"
  using half_usable
    estimateHomography_fallback [OF half_usable, of example_stdlib 0 Id3]
  by (intro conjI)

text \<open>
  Claim C7 as stated fails on one match displaced by (0.5, 0.5): \<open>bestX\<close> is 0 after the
  only trial, the hypothesis of that trial has x component one half, and the x component
  returned is 0.
\<close>

theorem estimateHomography_fallback_counterexample:
  "trials_loop example_stdlib half_keypoints1 half_keypoints2 half_matches 1 (0, search0) =
     Inr (12345, \<lparr>xTrans = 1 / 2, yTrans = 1 / 2, maxConcensus = 0, bestX = 0, bestY = 0\<rparr>) \<and>
   last_hypothesis example_stdlib half_keypoints1 half_keypoints2 half_matches = Inr (1 / 2, 1 / 2) \<and>
   estimateHomography example_stdlib half_keypoints1 half_keypoints2 half_matches 0 Id3 =
     Inr (0, Id3\<lparr>m02 := 0, m12 := 0\<rparr>, 12345) \<and>
   m02 (Id3\<lparr>m02 := 0, m12 := 0\<rparr>) \<noteq> 1 / 2"
  by (simp add: estimateHomography_def finish_def trial_def try_feature_def last_hypothesis_def
      shift_def at_vec_def d2i_def trunc_def search0_def example_stdlib_def
      half_keypoints1_def half_keypoints2_def half_matches_def keypoint_def dmatch_def Id3_def)

text \<open>
  Claim C2, as the code has it.  With no match the function runs no trial and returns the
  success code 0 with the translation (0, 0) written to the homography: no error is
  reported, and a result without error does not need a match.
\<close>

theorem estimateHomography_no_matches:
  "estimateHomography L kp1 kp2 [] g H = Inr (0, H\<lparr>m02 := 0, m12 := 0\<rparr>, srand L 0)"
  by (simp add: estimateHomography_def finish_def search0_def d2i_def trunc_def)

theorem estimateHomography_no_matches_witness:
  "estimateHomography example_stdlib [] [] [] 0 Id3 = Inr (0, Id3, 0)"
  using estimateHomography_no_matches [of example_stdlib "[]" "[]" 0 Id3]
  by (simp add: Id3_def example_stdlib_def)

text \<open>
  Claim C2 as stated fails: on empty inputs the result is the success code with a
  translation, not an error.
\<close>

theorem estimateHomography_no_matches_counterexample:
  "estimateHomography example_stdlib [] [] [] 0 Id3 = Inr (0, Id3\<lparr>m02 := 0, m12 := 0\<rparr>, 0)"
  by (simp add: estimateHomography_def finish_def search0_def d2i_def trunc_def example_stdlib_def)

text \<open>
  Claim C10.  The generator state \<open>g1\<close> or \<open>g2\<close> in which the function is entered has no
  influence: \<^verbatim>\<open>srand(0)\<close> comes first, so any two calls on the same matches and keypoints
  try the same sequence of feature numbers, the one drawn from seed 0, and return the same
  code, the same translation and the same generator state.
\<close>

theorem estimateHomography_deterministic:
  "estimateHomography L kp1 kp2 ms g1 H = estimateHomography L kp1 kp2 ms g2 H \<and>
   estimateHomography L kp1 kp2 ms g1 H =
     thenF (try_features kp1 kp2 ms
              (featureNumbers L (int (length ms)) (length ms) (srand L 0)) search0)
       (\<lambda>s. thenF (finish s H) (\<lambda>h. Inr (0, h, rand_state_after L (length ms) (srand L 0))))"
  by (simp only: estimateHomography_unfold)

text \<open>
  Claim C1 at the four corner matches.  Whatever match a trial draws as its hypothesis, no
  other match is within the tolerance on both axes, so the count of the specification is 0;
  the code counts 2 for the first match and 1 for each of the others, because \<open>xQual\<close> and
  \<open>yQual\<close> are set back to 0 once for each trial and not for each match.  With the first
  match as hypothesis, the count is still 0 after the second match (within the tolerance on
  x only) and becomes 1 at the third (within the tolerance on y only).
\<close>

theorem check_others_sticky:
  "check_others corners1 corners2 0 0 0 0 (take 2 corner_matches) (0, 0, 0) = Inr (1, 0, 0) \<and>
   check_others corners1 corners2 0 0 0 0 (take 3 corner_matches) (0, 0, 0) = Inr (1, 1, 1) \<and>
   check_others corners1 corners2 0 0 0 0 corner_matches (0, 0, 0) = Inr (1, 1, 2) \<and>
   spec_consensus corners1 corners2 corner_matches 0 0 0 = 0 \<and>
   check_others corners1 corners2 1 0 100 0 corner_matches (0, 0, 0) = Inr (1, 1, 1) \<and>
   spec_consensus corners1 corners2 corner_matches 1 0 100 = 0 \<and>
   check_others corners1 corners2 2 100 0 0 corner_matches (0, 0, 0) = Inr (1, 1, 1) \<and>
   spec_consensus corners1 corners2 corner_matches 2 100 0 = 0 \<and>
   check_others corners1 corners2 3 100 100 0 corner_matches (0, 0, 0) = Inr (1, 1, 1) \<and>
   spec_consensus corners1 corners2 corner_matches 3 100 100 = 0 \<and>
   try_feature corners1 corners2 corner_matches 0 search0 =
     Inr \<lparr>xTrans = 0, yTrans = 0, maxConcensus = 2, bestX = 0, bestY = 0\<rparr>"
  by (simp add: corners1_def corners2_def corner_matches_def keypoint_def dmatch_def
      shift_def at_vec_def tolerance_def spec_consensus_def upto.simps try_feature_def
      search0_def d2i_def trunc_def)

section \<open>Properties of \<^verbatim>\<open>getFeatures\<close>\<close>

lemma upto_from_zero_nth:
  "map (\<lambda>i. xs ! nat i) [0..int (length xs) - 1] = xs"
  by (rule nth_equalityI) simp_all

lemma minDist_loop_valid:
  "list_all (\<lambda>i. 0 \<le> i \<and> i < int (length approx)) js \<Longrightarrow>
   minDist_loop approx js acc =
     Inr (foldl min acc (map (\<lambda>i. distance (approx ! nat i)) js))"
proof (induction js arbitrary: acc)
  case Nil
  then show ?case by simp
next
  case (Cons j js)
  then have j: "at_vec approx j = Inr (approx ! nat j)"
    and js: "list_all (\<lambda>i. 0 \<le> i \<and> i < int (length approx)) js"
    by (simp_all add: at_vec_def)
  have m: "(if distance (approx ! nat j) < acc then distance (approx ! nat j) else acc)
           = min acc (distance (approx ! nat j))"
    by (simp add: min_def)
  show ?case
    using Cons.IH [OF js] by (simp add: j Let_def m)
qed

lemma keep_loop_valid:
  "list_all (\<lambda>i. 0 \<le> i \<and> i < int (length approx)) js \<Longrightarrow>
   keep_loop approx js minDist kept =
     Inr (kept @ filter (\<lambda>m. distance m < 3 * minDist) (map (\<lambda>i. approx ! nat i) js))"
proof (induction js arbitrary: kept)
  case Nil
  then show ?case by simp
next
  case (Cons j js)
  then have j: "at_vec approx j = Inr (approx ! nat j)"
    and js: "list_all (\<lambda>i. 0 \<le> i \<and> i < int (length approx)) js"
    by (simp_all add: at_vec_def)
  show ?case
    using Cons.IH [OF js] by (simp add: j)
qed

lemma upto_in_range:
  "list_all (\<lambda>i. 0 \<le> i \<and> i < int (length xs)) [0..int (length xs) - 1]"
  by (simp add: list_all_iff)

lemma foldl_min_Min:
  "foldl min acc (ds :: real list) = Min (insert acc (set ds))"
proof (induction ds arbitrary: acc)
  case Nil
  then show ?case by simp
next
  case (Cons d ds)
  have "Min (insert (min acc d) (set ds)) = Min (insert acc (insert d (set ds)))"
  proof (cases "ds = []")
    case True
    then show ?thesis by simp
  next
    case False
    then show ?thesis by (simp add: min.assoc)
  qed
  with Cons.IH [of "min acc d"] show ?case by simp
qed

text \<open>
  When the matcher returns one candidate for each row of \<^verbatim>\<open>descriptors1\<close>, the matches kept
  are those below three times the smaller of 100 and the minimum distance.
\<close>

lemma getFeatures_kept:
  assumes "descriptors1_rows d = int (length (approxMatches d))"
  shows "getFeatures d =
     Inr (0, keypoints1 d, keypoints2 d,
          filter (\<lambda>m. distance m < 3 * Min (insert 100 (distance ` set (approxMatches d))))
            (approxMatches d))"
proof -
  let ?a = "approxMatches d"
  have ds: "map (\<lambda>i. distance (?a ! nat i)) [0..int (length ?a) - 1] = map distance ?a"
    by (rule nth_equalityI) simp_all
  have md: "minDist_loop ?a [0..int (length ?a) - 1] 100
            = Inr (Min (insert 100 (distance ` set ?a)))"
    by (simp only: minDist_loop_valid [OF upto_in_range] ds foldl_min_Min set_map)
  have kp: "keep_loop ?a [0..int (length ?a) - 1] (Min (insert 100 (distance ` set ?a))) []
            = Inr (filter (\<lambda>m. distance m < 3 * Min (insert 100 (distance ` set ?a))) ?a)"
    by (simp only: keep_loop_valid [OF upto_in_range] upto_from_zero_nth append_Nil)
  show ?thesis
    by (simp only: getFeatures_def Let_def assms md thenF_Inr kp)
qed

text \<open>They are the matches of the specification once some candidate is at distance 100 or less.\<close>

lemma getFeatures_meets_spec:
  assumes "descriptors1_rows d = int (length (approxMatches d))"
    and "m0 \<in> set (approxMatches d)" and "distance m0 \<le> 100"
  shows "getFeatures d = Inr (0, keypoints1 d, keypoints2 d, spec_good_matches (approxMatches d))"
proof -
  let ?D = "distance ` set (approxMatches d)"
  have fin: "finite ?D" and ne: "?D \<noteq> {}" using assms(2) by auto
  have "Min ?D \<le> distance m0" using assms(2) by (intro Min_le) simp_all
  then have le: "Min ?D \<le> 100" using assms(3) by simp
  have "Min (insert 100 ?D) = min 100 (Min ?D)"
    using fin ne by (rule Min_insert)
  also have "\<dots> = Min ?D"
    using le by (rule min_absorb2)
  finally have "Min (insert 100 ?D) = Min ?D" .
  then show ?thesis
    using getFeatures_kept [OF assms(1)] by (simp add: spec_good_matches_def)
qed

text \<open>
  Claim C9 at two candidates of distance 150 and 400.  The minimum distance is 150, so the
  specification keeps both (400 is below 450); the code starts its search for the minimum at
  100, ends it at 100 and keeps only the first (400 is not below 300).
\<close>

theorem getFeatures_far_matches:
  "getFeatures far_detected =
     Inr (0, [keypoint 0 0, keypoint 5 5], [keypoint 10 0, keypoint 15 5], [dmatch 0 0 150]) \<and>
   spec_good_matches (approxMatches far_detected) = [dmatch 0 0 150, dmatch 1 1 400]"
  by (simp add: getFeatures_def far_detected_def upto.simps at_vec_def dmatch_def
      spec_good_matches_def)

section \<open>Properties of \<^verbatim>\<open>blend\<close>\<close>

text \<open>Where both pixels count as populated and the two alphas sum to 0, the pixel faults.\<close>

lemma blend_pixel_zero_weights:
  assumes "at_vec rowCan (3 * x) = Inr c0" and "at_vec rowNew (3 * x) = Inr n0"
    and "c0 \<noteq> 0" and "n0 \<noteq> 0"
    and "at_vec alphaNew x = Inr aN" and "at_vec alphaCan x = Inr aC" and "aN + aC = 0"
  shows "blend_pixel rowNew alphaNew alphaCan x rowCan = Inl DivByZero"
  using assms by (simp add: blend_pixel_def feather_def fdiv_def)

text \<open>
  Claim C3 at a canvas pixel (10, 20, 30) and a new pixel (40, 50, 60), both with a non-zero
  first channel.  With both alphas 0 the code divides by zero and the canvas pixel is not
  kept; with both alphas one half the result is the mean of the two pixels.
\<close>

theorem blend_zero_weights:
  "blend (image [[40, 50, 60]]) (image [[10, 20, 30]]) (alpha [[0]]) (alpha [[0]]) = Inl DivByZero \<and>
   blend (image [[40, 50, 60]]) (image [[10, 20, 30]]) (alpha [[1 / 2]]) (alpha [[1 / 2]]) =
     Inr (0, image [[25, 35, 45]])"
  by (simp add: blend_def image_def alpha_def upto.simps at_vec_def blend_pixel_def
      feather_def fdiv_def d2uchar_def trunc_def)

section \<open>Properties of \<^verbatim>\<open>Stitch\<close>\<close>

lemma registerPair_any_state:
  "registerPair L detect src n i g = registerPair L detect src n i g'"
  by (simp add: registerPair_def estimateHomography_def)

lemma registerPair_pairwise:
  assumes "registerPair L detect src n i g = Inr Hg"
  shows "pairwiseTranslation L detect src n i = Some (m02 (fst Hg), m12 (fst Hg))"
proof -
  have "registerPair L detect src n i (srand L 0) = Inr Hg"
    using assms registerPair_any_state [of L detect src n i "srand L 0" g] by simp
  then show ?thesis by (simp add: pairwiseTranslation_def)
qed

lemma stitch_loop_done:
  "\<not> i < n \<Longrightarrow> stitch_loop L detect src n i gt = Inr gt"
  by simp

lemma stitch_loop_step:
  assumes "i < n" and "registerPair L detect src n i (fst gt) = Inr Hg"
    and "at_vec (snd gt) (i - 1) = Inr prev"
  shows "stitch_loop L detect src n i gt =
         stitch_loop L detect src n (i + 1)
           (snd Hg, snd gt @ [Id3\<lparr>m02 := m02 prev + m02 (fst Hg), m12 := m12 prev + m12 (fst Hg)\<rparr>])"
proof -
  have "stitch_loop L detect src n i gt =
     (case registerPair L detect src n i (fst gt) of
           Inl e \<Rightarrow> Inl e
         | Inr Hg \<Rightarrow>
             (case at_vec (snd gt) (i - 1) of
                Inl e \<Rightarrow> Inl e
              | Inr prev \<Rightarrow>
                  let H = fst Hg;
                      C0 = Id3;
                      C1 = C0\<lparr>m02 := m02 C0 + m02 prev, m12 := m12 C0 + m12 prev\<rparr>;
                      C = C1\<lparr>m02 := m02 C1 + m02 H, m12 := m12 C1 + m12 H\<rparr>
                  in stitch_loop L detect src n (i + 1) (snd Hg, snd gt @ [C])))"
    using assms(1) by (subst stitch_loop.simps) simp
  also have "\<dots> = stitch_loop L detect src n (i + 1)
           (snd Hg, snd gt @ [Id3\<lparr>m02 := m02 prev + m02 (fst Hg), m12 := m12 prev + m12 (fst Hg)\<rparr>])"
    unfolding assms(2,3) by (simp add: Let_def Id3_def del: stitch_loop.simps)
  finally show ?thesis .
qed

lemma stitch_loop_fault:
  assumes "i < n" and "stitch_loop L detect src n i gt = Inr r"
  shows "\<exists>Hg prev. registerPair L detect src n i (fst gt) = Inr Hg \<and> at_vec (snd gt) (i - 1) = Inr prev"
proof (cases "registerPair L detect src n i (fst gt)")
  case (Inl e)
  have "stitch_loop L detect src n i gt = Inl e"
    using assms(1) Inl by (subst stitch_loop.simps) simp
  with assms(2) show ?thesis by simp
next
  case Hg: (Inr Hg)
  show ?thesis
  proof (cases "at_vec (snd gt) (i - 1)")
    case (Inl e)
    have "stitch_loop L detect src n i gt = Inl e"
      using assms(1) Hg Inl by (subst stitch_loop.simps) simp
    with assms(2) show ?thesis by simp
  next
    case (Inr prev)
    with Hg show ?thesis by simp
  qed
qed

lemma stitch_loop_chain:
  "stitch_loop L detect src n i (g, ts) = Inr (g', ts') \<Longrightarrow> int (length ts) = i \<Longrightarrow> 1 \<le> i \<Longrightarrow>
   (\<exists>rest. ts' = ts @ rest \<and> length rest = nat (n - i)) \<and>
   (\<forall>k. i \<le> k \<and> k < n \<longrightarrow> follows L detect src n ts' k)"
proof (induction "nat (n - i)" arbitrary: i g ts)
  case 0
  then have "\<not> i < n" by simp
  with "0.prems"(1) have "ts' = ts" by (simp del: stitch_loop.simps add: stitch_loop_done)
  with \<open>\<not> i < n\<close> show ?case by auto
next
  case (Suc d)
  then have lt: "i < n" by simp
  from stitch_loop_fault [OF lt Suc.prems(1)] obtain Hg prev where
    Hg: "registerPair L detect src n i g = Inr Hg" and prev: "at_vec ts (i - 1) = Inr prev"
    by auto
  let ?C = "Id3\<lparr>m02 := m02 prev + m02 (fst Hg), m12 := m12 prev + m12 (fst Hg)\<rparr>"
  have next_call: "stitch_loop L detect src n (i + 1) (snd Hg, ts @ [?C]) = Inr (g', ts')"
    using stitch_loop_step [OF lt, of L detect src "(g, ts)" Hg prev] Hg prev Suc.prems(1)
    by (simp del: stitch_loop.simps)
  have d: "d = nat (n - (i + 1))" using Suc.hyps(2) by simp
  have len: "int (length (ts @ [?C])) = i + 1" using Suc.prems(2) by simp
  have pos: "1 \<le> i + 1" using Suc.prems(3) by simp
  from Suc.hyps(1) [OF d next_call len pos]
  obtain rest where rest: "ts' = (ts @ [?C]) @ rest" "length rest = nat (n - (i + 1))"
    and later: "\<forall>k. i + 1 \<le> k \<and> k < n \<longrightarrow> follows L detect src n ts' k"
    by auto
  have prev_eq: "prev = ts ! nat (i - 1)"
    using prev by (simp add: at_vec_def split: if_splits)
  have at_i: "ts' ! nat i = ?C"
    using rest(1) Suc.prems(2) by (simp add: nth_append)
  have "nat (i - 1) < length ts" using Suc.prems(2,3) by simp
  then have at_prev: "ts' ! nat (i - 1) = prev"
    using rest(1) prev_eq by (simp add: nth_append)
  have here: "follows L detect src n ts' i"
    unfolding follows_def registerPair_pairwise [OF Hg] at_i at_prev by simp
  have all: "\<forall>k. i \<le> k \<and> k < n \<longrightarrow> follows L detect src n ts' k"
  proof (intro allI impI)
    fix k assume k: "i \<le> k \<and> k < n"
    show "follows L detect src n ts' k"
    proof (cases "k = i")
      case True
      with here show ?thesis by simp
    next
      case False
      with k have "i + 1 \<le> k \<and> k < n" by simp
      with later show ?thesis by simp
    qed
  qed
  have "ts' = ts @ (?C # rest) \<and> length (?C # rest) = nat (n - i)"
    using rest lt by simp
  then have "\<exists>rest. ts' = ts @ rest \<and> length rest = nat (n - i)" by (rule exI)
  with all show ?case by simp
qed

lemma d2i_value: "d2i v = Inr k \<Longrightarrow> k = trunc v"
  by (simp add: d2i_def split: if_splits)

lemma trunc_nonneg: "0 \<le> v \<Longrightarrow> 0 \<le> trunc v"
  by (simp add: trunc_def)

lemma centering:
  assumes "0 \<le> r" and "0 \<le> out"
  shows "(- r) sdiv 2 + out sdiv 2 = out div 2 - r div (2::int)"
  using assms by (simp add: signed_divide_int_def sgn_if)

lemma Stitch_chain:
  assumes run: "Stitch L detect src numImages g = Inr (g', ts)" and rows: "0 \<le> rows (src ! 0)"
  shows "m02 (ts ! 0) = 0 \<and>
         m12 (ts ! 0) =
           real_of_int (trunc (1.2 * real_of_int (rows (src ! 0))) div 2 - rows (src ! 0) div 2) \<and>
         (\<forall>i. 1 \<le> i \<and> i < numImages \<longrightarrow> follows L detect src numImages ts i)"
proof -
  from run obtain first where first: "at_vec src 0 = Inr first"
    by (cases "at_vec src 0") (simp_all add: Stitch_def thenF_def)
  then have first_eq: "first = src ! 0"
    by (simp add: at_vec_def split: if_splits)
  from run first obtain out_rows where out: "d2i (1.2 * real_of_int (rows first)) = Inr out_rows"
    by (cases "d2i (1.2 * real_of_int (rows first))") (simp_all add: Stitch_def thenF_def)
  have out_eq: "out_rows = trunc (1.2 * real_of_int (rows first))"
    using out by (rule d2i_value)
  have out_pos: "0 \<le> out_rows"
    unfolding out_eq using rows first_eq by (intro trunc_nonneg) simp
  let ?Tr = "\<lparr>m00 = 1, m01 = 0, m02 = 0, m10 = 0, m11 = 1,
               m12 = real_of_int ((- rows first) sdiv 2 + out_rows sdiv 2),
               m20 = 0, m21 = 0, m22 = 1\<rparr>"
  have loop: "stitch_loop L detect src numImages 1 (g, [?Tr]) = Inr (g', ts)"
    using run first out by (simp add: Stitch_def thenF_def Let_def del: stitch_loop.simps)
  have "(\<exists>rest. ts = [?Tr] @ rest \<and> length rest = nat (numImages - 1)) \<and>
        (\<forall>k. 1 \<le> k \<and> k < numImages \<longrightarrow> follows L detect src numImages ts k)"
    by (rule stitch_loop_chain [OF loop]) simp_all
  then obtain rest where ts: "ts = [?Tr] @ rest"
    and chain: "\<forall>k. 1 \<le> k \<and> k < numImages \<longrightarrow> follows L detect src numImages ts k"
    by (elim conjE exE)
  have head: "ts ! 0 = ?Tr" using ts by simp
  have "(- rows first) sdiv 2 + out_rows sdiv 2 = out_rows div 2 - rows first div 2"
    using rows first_eq out_pos by (intro centering) simp_all
  then have "m12 (ts ! 0) = real_of_int (out_rows div 2 - rows first div 2)"
    unfolding head by simp
  moreover have "m02 (ts ! 0) = 0" unfolding head by simp
  ultimately show ?thesis
    using chain unfolding out_eq first_eq by (intro conjI)
qed

lemma chain_of_four:
  assumes f1: "follows L detect src 4 ts 1" and f2: "follows L detect src 4 ts 2"
    and f3: "follows L detect src 4 ts 3"
    and p1: "pairwiseTranslation L detect src 4 1 = Some (10, 0)"
    and p2: "pairwiseTranslation L detect src 4 2 = Some (8, 0)"
    and p3: "pairwiseTranslation L detect src 4 3 = Some (12, 0)"
  shows "m02 (ts ! 3) = m02 (ts ! 0) + 30 \<and> m12 (ts ! 3) = m12 (ts ! 0) + 0"
proof -
  have a: "m02 (ts ! 1) = m02 (ts ! 0) + 10" "m12 (ts ! 1) = m12 (ts ! 0) + 0"
    using f1 p1 by (simp_all add: follows_def)
  have b: "m02 (ts ! 2) = m02 (ts ! 1) + 8" "m12 (ts ! 2) = m12 (ts ! 1) + 0"
    using f2 p2 by (simp_all add: follows_def)
  have c: "m02 (ts ! 3) = m02 (ts ! 2) + 12" "m12 (ts ! 3) = m12 (ts ! 2) + 0"
    using f3 p3 by (simp_all add: follows_def)
  from a b c show ?thesis by simp
qed

text \<open>
  Claim C8.  Whenever \<^verbatim>\<open>Stitch\<close> runs without a fault on images of non-negative height, the
  first transform has horizontal translation 0 and vertical translation
  \<open>canvasHeight div 2 - frame0Height div 2\<close>, the divisions being those of the C++ integers
  and \<open>canvasHeight\<close> the truncation of 1.2 times the frame height; for every \<open>i\<close> from 1 the
  translation of transform \<open>i\<close> is the translation of transform \<open>i - 1\<close> plus the translation
  estimated between image \<open>i\<close> and image \<open>i - 1\<close>; and in a chain of four images with
  pairwise translations (10, 0), (8, 0), (12, 0) the transform of image 3 is the centering
  offset plus (30, 0).
\<close>

theorem Stitch_transforms:
  assumes "Stitch L detect src numImages g = Inr (g', ts)" and "0 \<le> rows (src ! 0)"
  shows "m02 (ts ! 0) = 0 \<and>
         m12 (ts ! 0) =
           real_of_int (trunc (1.2 * real_of_int (rows (src ! 0))) div 2 - rows (src ! 0) div 2) \<and>
         (\<forall>i. 1 \<le> i \<and> i < numImages \<longrightarrow> follows L detect src numImages ts i) \<and>
         (numImages = 4 \<and>
          pairwiseTranslation L detect src numImages 1 = Some (10, 0) \<and>
          pairwiseTranslation L detect src numImages 2 = Some (8, 0) \<and>
          pairwiseTranslation L detect src numImages 3 = Some (12, 0) \<longrightarrow>
          m02 (ts ! 3) = m02 (ts ! 0) + 30 \<and> m12 (ts ! 3) = m12 (ts ! 0) + 0)"
proof -
  note c = Stitch_chain [OF assms]
  have four: "numImages = 4 \<and>
          pairwiseTranslation L detect src numImages 1 = Some (10, 0) \<and>
          pairwiseTranslation L detect src numImages 2 = Some (8, 0) \<and>
          pairwiseTranslation L detect src numImages 3 = Some (12, 0) \<longrightarrow>
          m02 (ts ! 3) = m02 (ts ! 0) + 30 \<and> m12 (ts ! 3) = m12 (ts ! 0) + 0"
  proof
    assume h: "numImages = 4 \<and>
          pairwiseTranslation L detect src numImages 1 = Some (10, 0) \<and>
          pairwiseTranslation L detect src numImages 2 = Some (8, 0) \<and>
          pairwiseTranslation L detect src numImages 3 = Some (12, 0)"
    then have n: "numImages = 4" by simp
    from c have all: "\<forall>i. 1 \<le> i \<and> i < numImages \<longrightarrow> follows L detect src numImages ts i"
      by simp
    have f: "follows L detect src 4 ts 1" "follows L detect src 4 ts 2" "follows L detect src 4 ts 3"
      using all unfolding n by simp_all
    show "m02 (ts ! 3) = m02 (ts ! 0) + 30 \<and> m12 (ts ! 3) = m12 (ts ! 0) + 0"
      using h unfolding n by (intro chain_of_four [OF f]) simp_all
  qed
  from c four show ?thesis by simp
qed

subsection \<open>The chain of four images\<close>

lemma marker_estimate:
  assumes "\<bar>k\<bar> < 2 ^ 31"
  shows "estimateHomography example_stdlib [keypoint 0 0] [keypoint (real_of_int k) 0] [dmatch 0 0 1] g Id3
   = Inr (0, Id3\<lparr>m02 := real_of_int k, m12 := 0\<rparr>, 12345)"
proof -
  have fit: "\<bar>real_of_int k\<bar> < 2 ^ 31"
    using assms by (metis of_int_abs of_int_less_numeral_power_cancel_iff)
  have tr: "trunc (real_of_int k) = k"
    by (simp add: trunc_def)
  have zero: "d2i 0 = Inr 0"
    by (simp add: d2i_def trunc_def)
  show ?thesis
    by (simp add: estimateHomography_def finish_def trial_def try_feature_def
      shift_def at_vec_def d2i_fits [OF fit] tr zero search0_def example_stdlib_def
      keypoint_def dmatch_def Id3_def)
qed

lemma marker_features:
  "getFeatures (marker_detect img1 img2) =
     Inr (0, [keypoint 0 0], [keypoint (real (unat (hd (hd (data img1))))) 0], [dmatch 0 0 1])"
  by (simp add: getFeatures_def marker_detect_def upto.simps at_vec_def dmatch_def)

lemma chain4_at:
  "at_vec chain4 0 = Inr (solid 5 1 1)" "at_vec chain4 1 = Inr (solid 5 1 10)"
  "at_vec chain4 2 = Inr (solid 5 1 8)" "at_vec chain4 3 = Inr (solid 5 1 12)"
  by (simp_all add: chain4_def at_vec_def)

lemma solid_marker: "hd (hd (data (solid 5 1 v))) = v"
  by (simp add: solid_def)

lemma chain4_register:
  "registerPair example_stdlib marker_detect chain4 4 1 g = Inr (Id3\<lparr>m02 := 10, m12 := 0\<rparr>, 12345)"
  "registerPair example_stdlib marker_detect chain4 4 2 g = Inr (Id3\<lparr>m02 := 8, m12 := 0\<rparr>, 12345)"
  "registerPair example_stdlib marker_detect chain4 4 3 g = Inr (Id3\<lparr>m02 := 12, m12 := 0\<rparr>, 12345)"
  using marker_estimate [of 10 g] marker_estimate [of 8 g] marker_estimate [of 12 g]
  by (simp_all add: registerPair_def signed_modulo_int_def chain4_at marker_features
      solid_marker)


lemma chain4_run:
  "Stitch example_stdlib marker_detect chain4 4 0 = Inr (12345, chain4_transforms)"
proof -
  have out: "d2i 6 = Inr 6"
    by (simp add: d2i_def trunc_def)
  have start: "Stitch example_stdlib marker_detect chain4 4 0 =
        stitch_loop example_stdlib marker_detect chain4 4 1 (0, [Id3\<lparr>m12 := 1\<rparr>])"
    by (simp add: Stitch_def chain4_at solid_def out signed_divide_int_def Id3_def
        del: stitch_loop.simps)
  have s1: "stitch_loop example_stdlib marker_detect chain4 4 1 (0, [Id3\<lparr>m12 := 1\<rparr>]) =
        stitch_loop example_stdlib marker_detect chain4 4 2
          (12345, [Id3\<lparr>m12 := 1\<rparr>, Id3\<lparr>m02 := 10, m12 := 1\<rparr>])"
    by (subst stitch_loop.simps) (simp add: chain4_register at_vec_def Id3_def del: stitch_loop.simps)
  have s2: "stitch_loop example_stdlib marker_detect chain4 4 2
          (12345, [Id3\<lparr>m12 := 1\<rparr>, Id3\<lparr>m02 := 10, m12 := 1\<rparr>]) =
        stitch_loop example_stdlib marker_detect chain4 4 3
          (12345, [Id3\<lparr>m12 := 1\<rparr>, Id3\<lparr>m02 := 10, m12 := 1\<rparr>, Id3\<lparr>m02 := 18, m12 := 1\<rparr>])"
    by (subst stitch_loop.simps) (simp add: chain4_register at_vec_def Id3_def del: stitch_loop.simps)
  have s3: "stitch_loop example_stdlib marker_detect chain4 4 3
          (12345, [Id3\<lparr>m12 := 1\<rparr>, Id3\<lparr>m02 := 10, m12 := 1\<rparr>, Id3\<lparr>m02 := 18, m12 := 1\<rparr>]) =
        stitch_loop example_stdlib marker_detect chain4 4 4 (12345, chain4_transforms)"
    by (subst stitch_loop.simps)
       (simp add: chain4_register at_vec_def Id3_def chain4_transforms_def del: stitch_loop.simps)
  have s4: "stitch_loop example_stdlib marker_detect chain4 4 4 (12345, chain4_transforms) =
        Inr (12345, chain4_transforms)"
    by (subst stitch_loop.simps) simp
  show ?thesis
    by (simp only: start s1 s2 s3 s4)
qed

lemma chain4_pairs:
  "pairwiseTranslation example_stdlib marker_detect chain4 4 1 = Some (10, 0)"
  "pairwiseTranslation example_stdlib marker_detect chain4 4 2 = Some (8, 0)"
  "pairwiseTranslation example_stdlib marker_detect chain4 4 3 = Some (12, 0)"
  by (simp_all add: pairwiseTranslation_def chain4_register)

theorem Stitch_transforms_witness:
  "Stitch example_stdlib marker_detect chain4 4 0 = Inr (12345, chain4_transforms) \<and>
   0 \<le> rows (chain4 ! 0) \<and>
   pairwiseTranslation example_stdlib marker_detect chain4 4 1 = Some (10, 0) \<and>
   pairwiseTranslation example_stdlib marker_detect chain4 4 2 = Some (8, 0) \<and>
   pairwiseTranslation example_stdlib marker_detect chain4 4 3 = Some (12, 0) \<and>
   m02 (chain4_transforms ! 0) = 0 \<and>
   m12 (chain4_transforms ! 0) = real_of_int (trunc (1.2 * real_of_int 5) div 2 - 5 div 2) \<and>
   follows example_stdlib marker_detect chain4 4 chain4_transforms 1 \<and>
   m02 (chain4_transforms ! 3) = m02 (chain4_transforms ! 0) + 30 \<and>
   m12 (chain4_transforms ! 3) = m12 (chain4_transforms ! 0) + 0"
proof -
  have r: "0 \<le> rows (chain4 ! 0)" by (simp add: chain4_def solid_def)
  have r5: "rows (chain4 ! 0) = 5" by (simp add: chain4_def solid_def)
  note t = Stitch_transforms [OF chain4_run r]
  from t have 1: "m02 (chain4_transforms ! 0) = 0" by (rule conjunct1)
  from t have 2: "m12 (chain4_transforms ! 0) = real_of_int (trunc (1.2 * real_of_int 5) div 2 - 5 div 2)"
    unfolding r5 by (elim conjE)
  from t have "\<forall>i. 1 \<le> i \<and> i < 4 \<longrightarrow> follows example_stdlib marker_detect chain4 4 chain4_transforms i"
    by (elim conjE)
  then have 3: "follows example_stdlib marker_detect chain4 4 chain4_transforms 1" by simp
  from t have "4 = (4::int) \<and>
          pairwiseTranslation example_stdlib marker_detect chain4 4 1 = Some (10, 0) \<and>
          pairwiseTranslation example_stdlib marker_detect chain4 4 2 = Some (8, 0) \<and>
          pairwiseTranslation example_stdlib marker_detect chain4 4 3 = Some (12, 0) \<longrightarrow>
          m02 (chain4_transforms ! 3) = m02 (chain4_transforms ! 0) + 30 \<and>
          m12 (chain4_transforms ! 3) = m12 (chain4_transforms ! 0) + 0"
    by (elim conjE)
  with chain4_pairs have 4: "m02 (chain4_transforms ! 3) = m02 (chain4_transforms ! 0) + 30 \<and>
   m12 (chain4_transforms ! 3) = m12 (chain4_transforms ! 0) + 0" by simp
  from 4 have a4: "m02 (chain4_transforms ! 3) = m02 (chain4_transforms ! 0) + 30"
    and b4: "m12 (chain4_transforms ! 3) = m12 (chain4_transforms ! 0) + 0" by simp_all
  show ?thesis
    by (intro conjI chain4_run r chain4_pairs 1 2 3 a4 b4)
qed

end
